theory Spec2Isabelle
  imports Main
begin

section \<open>JavaScript values\<close>

text \<open>
  The values that flow through \<^verbatim>\<open>src/cache/MessageCache.js\<close>: ids, entities (message
  objects) and what the storage engine hands back. An object is its list of own
  properties in insertion order. Numbers are left out: the ids are documented as
  strings and no operation of the cache computes with a number.
\<close>

datatype jsval =
    JUndefined
  | JNull
  | JBool bool
  | JStr string
  | JObj "(string \<times> jsval) list"

text \<open>The test behind \<^verbatim>\<open>if (x)\<close> and \<^verbatim>\<open>!x\<close>.\<close>

fun truthy :: "jsval \<Rightarrow> bool" where
  "truthy JUndefined = False"
| "truthy JNull = False"
| "truthy (JBool b) = b"
| "truthy (JStr s) = (s \<noteq> [])"
| "truthy (JObj fs) = True"

text \<open>The conversion a template literal applies to an interpolated value.\<close>

fun to_string :: "jsval \<Rightarrow> string" where
  "to_string JUndefined = ''undefined''"
| "to_string JNull = ''null''"
| "to_string (JBool b) = (if b then ''true'' else ''false'')"
| "to_string (JStr s) = s"
| "to_string (JObj fs) = ''[object Object]''"

text \<open>
  What an operation can end with instead of a value: the \<^verbatim>\<open>TypeError\<close> of the
  language, or the value a collaborator's promise was rejected with (an \<^verbatim>\<open>await\<close>
  rethrows it unchanged).
\<close>

datatype failure = TypeError | Rejected jsval

text \<open>
  \<^verbatim>\<open>v.k\<close>: reading a property of \<^verbatim>\<open>undefined\<close> or \<^verbatim>\<open>null\<close> throws; an object
  gives the property's value, or \<^verbatim>\<open>undefined\<close> when it has none of that name. The
  one property the cache reads is \<^verbatim>\<open>id\<close>, which no boolean or string has, so on
  a primitive the read gives \<^verbatim>\<open>undefined\<close>.
\<close>

definition own_prop :: "(string \<times> jsval) list \<Rightarrow> string \<Rightarrow> jsval" where
  "own_prop fs k = (case map_of fs k of None \<Rightarrow> JUndefined | Some v \<Rightarrow> v)"

fun get_prop :: "jsval \<Rightarrow> string \<Rightarrow> failure + jsval" where
  "get_prop JUndefined k = Inl TypeError"
| "get_prop JNull k = Inl TypeError"
| "get_prop (JObj fs) k = Inr (own_prop fs k)"
| "get_prop (JBool b) k = Inr JUndefined"
| "get_prop (JStr s) k = Inr JUndefined"

fun put_field :: "'k \<Rightarrow> 'v \<Rightarrow> ('k \<times> 'v) list \<Rightarrow> ('k \<times> 'v) list" where
  "put_field k v [] = [(k, v)]"
| "put_field k v (p # ps) = (if fst p = k then (k, v) # ps else p # put_field k v ps)"

text \<open>
  \<^verbatim>\<open>v.k = x\<close> under \<^verbatim>\<open>'use strict'\<close> (the first line of the file): assigning to a
  property of anything but an object throws.
\<close>

fun set_prop :: "jsval \<Rightarrow> string \<Rightarrow> jsval \<Rightarrow> failure + jsval" where
  "set_prop (JObj fs) k x = Inr (JObj (put_field k x fs))"
| "set_prop JUndefined k x = Inl TypeError"
| "set_prop JNull k x = Inl TypeError"
| "set_prop (JBool b) k x = Inl TypeError"
| "set_prop (JStr s) k x = Inl TypeError"

section \<open>Collaborators\<close>

text \<open>
  The storage engine is the constructor's argument: any object with these five
  asynchronous methods, over a state \<open>'s\<close> of its own. Each call is awaited where
  it is made, so a call is a step from the state before to the result (the value of
  the promise, or what it was rejected with) and the state after.
\<close>

record 's engine =
  se_get :: "string \<Rightarrow> 's \<Rightarrow> (failure + jsval) \<times> 's"
  se_upsert :: "string \<Rightarrow> jsval \<Rightarrow> 's \<Rightarrow> (failure + jsval) \<times> 's"
  se_remove :: "string \<Rightarrow> 's \<Rightarrow> (failure + jsval) \<times> 's"
  se_filter :: "(jsval \<Rightarrow> bool) \<Rightarrow> jsval list option \<Rightarrow> 's \<Rightarrow> (failure + jsval list) \<times> 's"
  se_find :: "(jsval \<Rightarrow> bool) \<Rightarrow> jsval list option \<Rightarrow> 's \<Rightarrow> (failure + jsval) \<times> 's"

text \<open>
  Every call the cache makes into a collaborator, in the order the calls are made.
\<close>

datatype call =
    SE_get string
  | SE_upsert string jsval
  | SE_remove string
  | SE_filter "jsval list option"
  | SE_find "jsval list option"
  | IDX_add string jsval
  | IDX_remove string jsval

text \<open>
  The world outside a cache instance: the engine's state, the index (per namespace,
  the set of ids) and the log of collaborator calls.
\<close>

record 's world =
  estate :: 's
  index :: "string \<Rightarrow> jsval set"
  calls :: "call list"

definition storageEngine_get ::
    "'s engine \<Rightarrow> string \<Rightarrow> 's world \<Rightarrow> (failure + jsval) \<times> 's world" where
  "storageEngine_get se key w =
     (case se_get se key (estate w) of
        (r, s) \<Rightarrow> (r, w\<lparr>estate := s, calls := calls w @ [SE_get key]\<rparr>))"

definition storageEngine_upsert ::
    "'s engine \<Rightarrow> string \<Rightarrow> jsval \<Rightarrow> 's world \<Rightarrow> (failure + jsval) \<times> 's world" where
  "storageEngine_upsert se key data w =
     (case se_upsert se key data (estate w) of
        (r, s) \<Rightarrow> (r, w\<lparr>estate := s, calls := calls w @ [SE_upsert key data]\<rparr>))"

definition storageEngine_remove ::
    "'s engine \<Rightarrow> string \<Rightarrow> 's world \<Rightarrow> (failure + jsval) \<times> 's world" where
  "storageEngine_remove se key w =
     (case se_remove se key (estate w) of
        (r, s) \<Rightarrow> (r, w\<lparr>estate := s, calls := calls w @ [SE_remove key]\<rparr>))"

definition storageEngine_filter ::
    "'s engine \<Rightarrow> (jsval \<Rightarrow> bool) \<Rightarrow> jsval list option \<Rightarrow> 's world
      \<Rightarrow> (failure + jsval list) \<times> 's world" where
  "storageEngine_filter se fn ids w =
     (case se_filter se fn ids (estate w) of
        (r, s) \<Rightarrow> (r, w\<lparr>estate := s, calls := calls w @ [SE_filter ids]\<rparr>))"

definition storageEngine_find ::
    "'s engine \<Rightarrow> (jsval \<Rightarrow> bool) \<Rightarrow> jsval list option \<Rightarrow> 's world
      \<Rightarrow> (failure + jsval) \<times> 's world" where
  "storageEngine_find se fn ids w =
     (case se_find se fn ids (estate w) of
        (r, s) \<Rightarrow> (r, w\<lparr>estate := s, calls := calls w @ [SE_find ids]\<rparr>))"

section \<open>The cache instance\<close>

text \<open>
  The fields of a \<^verbatim>\<open>MessageCache\<close>. \<open>boundObject\<close> is \<open>None\<close> while the property
  has never been assigned (the instance is unbound; reading it gives
  \<^verbatim>\<open>undefined\<close>) and \<open>Some e\<close> once \<^verbatim>\<open>bindObject(e)\<close> has run.
\<close>

record 's cache =
  storageEngine :: "'s engine"
  namespace :: string
  boundObject :: "jsval option"

text \<open>The expression \<^verbatim>\<open>this.boundObject\<close>.\<close>

definition this_boundObject :: "'s cache \<Rightarrow> jsval" where
  "this_boundObject this = (case boundObject this of None \<Rightarrow> JUndefined | Some e \<Rightarrow> e)"

text \<open>
  Modelled from the spec: \<^verbatim>\<open>BaseCache.bindObject\<close> is inherited from
  \<^verbatim>\<open>./BaseCache\<close>, which is not among the sources. Section 4.1: it "mutates the
  calling instance to bound state, storing a reference to \<^verbatim>\<open>entity\<close>".
\<close>

definition bindObject :: "'s cache \<Rightarrow> jsval \<Rightarrow> 's cache" where
  "bindObject this entity = this\<lparr>boundObject := Some entity\<rparr>"

text \<open>
  Modelled from the spec: \<^verbatim>\<open>BaseCache.addToIndex\<close> is inherited from
  \<^verbatim>\<open>./BaseCache\<close>, which is not among the sources. Sections 3 and 6: the index is
  a set of ids scoped to the namespace, and \<^verbatim>\<open>addToIndex(id)\<close> adds the id and
  completes.
\<close>

definition addToIndex :: "'s cache \<Rightarrow> jsval \<Rightarrow> 's world \<Rightarrow> 's world" where
  "addToIndex this id' w =
     w\<lparr>index := (index w)(namespace this := insert id' (index w (namespace this))),
       calls := calls w @ [IDX_add (namespace this) id']\<rparr>"

text \<open>
  Modelled from the spec: \<^verbatim>\<open>BaseCache.removeFromIndex\<close> is inherited from
  \<^verbatim>\<open>./BaseCache\<close>, which is not among the sources. Sections 3 and 6:
  \<^verbatim>\<open>removeFromIndex(id)\<close> takes the id out of the namespace's set and completes.
\<close>

definition removeFromIndex :: "'s cache \<Rightarrow> jsval \<Rightarrow> 's world \<Rightarrow> 's world" where
  "removeFromIndex this id' w =
     w\<lparr>index := (index w)(namespace this := index w (namespace this) - {id'}),
       calls := calls w @ [IDX_remove (namespace this) id']\<rparr>"

text \<open>
  The constructor (lines 17-24). \<^verbatim>\<open>super()\<close> leaves the instance unbound.
\<close>

definition new_MessageCache :: "'s engine \<Rightarrow> jsval \<Rightarrow> 's cache" where
  "new_MessageCache se bo =
     (let this = \<lparr>storageEngine = se, namespace = ''message'', boundObject = None\<rparr>
      in if truthy bo then bindObject this bo else this)"

text \<open>\<^verbatim>\<open>buildId\<close> (lines 107-109).\<close>

definition buildId :: "'s cache \<Rightarrow> jsval \<Rightarrow> string" where
  "buildId this messageId = namespace this @ ''.'' @ to_string messageId"

text \<open>
  What an operation returns where the source returns an object: the receiver
  itself (\<^verbatim>\<open>return this\<close>), an instance made by \<^verbatim>\<open>new MessageCache(...)\<close>, or a
  plain value (an entity, \<^verbatim>\<open>null\<close>).
\<close>

datatype 's retval = Self | Fresh "'s cache" | Plain jsval

text \<open>\<^verbatim>\<open>get\<close> (lines 31-40).\<close>

definition get :: "'s cache \<Rightarrow> jsval \<Rightarrow> 's world \<Rightarrow> (failure + 's retval) \<times> 's world" where
  "get this id' w =
     (if truthy (this_boundObject this) then (Inr (Plain (this_boundObject this)), w)
      else
        (case storageEngine_get (storageEngine this) (buildId this id') w of
           (Inl e, w1) \<Rightarrow> (Inl e, w1)
         | (Inr message, w1) \<Rightarrow>
             if \<not> truthy message then (Inr (Plain JNull), w1)
             else (Inr (Fresh (new_MessageCache (storageEngine this) message)), w1)))"

text \<open>
  \<^verbatim>\<open>update\<close> (lines 48-60). The method calls itself, so it is a partial function:
  \<open>None\<close> is a call that never returns a result (a runtime ends an unbounded
  chain of calls when its stack is used up). The receiver is returned next to the
  result, since \<^verbatim>\<open>bindObject\<close> changes it in place. \<^verbatim>\<open>data.id = id\<close> changes the
  caller's object; the changed object is what goes on to the engine and into the new
  instance.
\<close>

partial_function (option) update ::
    "'s cache \<Rightarrow> jsval \<Rightarrow> jsval \<Rightarrow> 's world
      \<Rightarrow> ((failure + 's retval) \<times> 's cache \<times> 's world) option" where
  "update this id' data w =
     (if truthy (this_boundObject this) then
        (let this1 = bindObject this data in
         case get_prop (this_boundObject this1) ''id'' of
           Inl e \<Rightarrow> Some (Inl e, this1, w)
         | Inr bid \<Rightarrow>
             Option.bind (update this1 bid data w)
               (\<lambda>(r, this2, w2).
                  case r of
                    Inl e \<Rightarrow> Some (Inl e, this2, w2)
                  | Inr _ \<Rightarrow> Some (Inr Self, this2, w2)))
      else
        (case get_prop data ''id'' of
           Inl e \<Rightarrow> Some (Inl e, this, w)
         | Inr did \<Rightarrow>
             (case (if \<not> truthy did then set_prop data ''id'' id' else Inr data) of
                Inl e \<Rightarrow> Some (Inl e, this, w)
              | Inr data1 \<Rightarrow>
                  (let w1 = addToIndex this id' w in
                   case storageEngine_upsert (storageEngine this) (buildId this id') data1 w1 of
                     (Inl e, w2) \<Rightarrow> Some (Inl e, this, w2)
                   | (Inr _, w2) \<Rightarrow>
                       Some (Inr (Fresh (new_MessageCache (storageEngine this) data1)),
                             this, w2)))))"

text \<open>
  \<^verbatim>\<open>remove\<close> (lines 67-78), a partial function for the same reason. It never
  changes the receiver.
\<close>

partial_function (option) remove ::
    "'s cache \<Rightarrow> jsval \<Rightarrow> 's world \<Rightarrow> ((failure + jsval) \<times> 's world) option" where
  "remove this id' w =
     (if truthy (this_boundObject this) then
        (case get_prop (this_boundObject this) ''id'' of
           Inl e \<Rightarrow> Some (Inl e, w)
         | Inr bid \<Rightarrow> remove this bid w)
      else
        (case storageEngine_get (storageEngine this) (buildId this id') w of
           (Inl e, w1) \<Rightarrow> Some (Inl e, w1)
         | (Inr message, w1) \<Rightarrow>
             if truthy message then
               (let w2 = removeFromIndex this id' w1 in
                Some (storageEngine_remove (storageEngine this) (buildId this id') w2))
             else Some (Inr JNull, w1)))"

declare update.simps [code]
declare remove.simps [code]

text \<open>\<^verbatim>\<open>filter\<close> (lines 86-89); \<open>ids = None\<close> is the default \<^verbatim>\<open>null\<close>.\<close>

definition filter_cache ::
    "'s cache \<Rightarrow> (jsval \<Rightarrow> bool) \<Rightarrow> jsval list option \<Rightarrow> 's world
      \<Rightarrow> (failure + 's cache list) \<times> 's world" where
  "filter_cache this fn ids w =
     (case storageEngine_filter (storageEngine this) fn ids w of
        (Inl e, w1) \<Rightarrow> (Inl e, w1)
      | (Inr message, w1) \<Rightarrow>
          (Inr (map (\<lambda>r. new_MessageCache (storageEngine this) r) message), w1))"

text \<open>\<^verbatim>\<open>find\<close> (lines 97-100).\<close>

definition find_cache ::
    "'s cache \<Rightarrow> (jsval \<Rightarrow> bool) \<Rightarrow> jsval list option \<Rightarrow> 's world
      \<Rightarrow> (failure + 's retval) \<times> 's world" where
  "find_cache this fn ids w =
     (case storageEngine_find (storageEngine this) fn ids w of
        (Inl e, w1) \<Rightarrow> (Inl e, w1)
      | (Inr message, w1) \<Rightarrow>
          (Inr (Fresh (new_MessageCache (storageEngine this) message)), w1))"

section \<open>The update of a bound instance, as specified\<close>

text \<open>
  The reading the specification gives of \<^verbatim>\<open>update\<close> on a bound instance, to be
  compared with \<open>update\<close> above: rebind to the new data, then run the update of an
  unbound instance (same engine, same namespace) with the new data's id, and
  return the receiver.
\<close>

definition update_bound_spec ::
    "'s cache \<Rightarrow> jsval \<Rightarrow> jsval \<Rightarrow> 's world
      \<Rightarrow> ((failure + 's retval) \<times> 's cache \<times> 's world) option" where
  "update_bound_spec this id' data w =
     (let this1 = bindObject this data in
      case get_prop data ''id'' of
        Inl e \<Rightarrow> Some (Inl e, this1, w)
      | Inr bid \<Rightarrow>
          Option.bind (update (this1\<lparr>boundObject := None\<rparr>) bid data w)
            (\<lambda>(r, unbound, w2).
               case r of
                 Inl e \<Rightarrow> Some (Inl e, this1, w2)
               | Inr _ \<Rightarrow> Some (Inr Self, this1, w2)))"

section \<open>The contract between get and upsert\<close>

text \<open>
  What the storage engine promises about \<^verbatim>\<open>get\<close> after \<^verbatim>\<open>upsert\<close> (section 6 of
  the specification): once an upsert at a key has completed, a get at that key
  returns the entity that was upserted.
\<close>

definition get_upsert_contract :: "'s engine \<Rightarrow> bool" where
  "get_upsert_contract se =
     (\<forall>key e s.
        case se_upsert se key e s of
          (Inl x, s1) \<Rightarrow> True
        | (Inr r, s1) \<Rightarrow> fst (se_get se key s1) = Inr e)"

section \<open>A storage engine in memory\<close>

text \<open>
  Modelled from the spec: the storage engines of the repository are not among the
  sources. Section 6 gives the contract: \<^verbatim>\<open>get(key)\<close> returns the entity or
  absence and has no side effect; \<^verbatim>\<open>upsert(key, entity)\<close> creates or overwrites at
  that key; \<^verbatim>\<open>remove(key)\<close> gives completion, or absence if the key is missing;
  \<^verbatim>\<open>filter\<close> and \<^verbatim>\<open>find\<close> are read-only, over all entities or those whose id
  is among \<^verbatim>\<open>ids\<close>, and \<^verbatim>\<open>find\<close> gives the first match or absence. The engine
  below keeps the entities in a list of key-entity pairs; the theorems use it only
  as a concrete engine to run the cache on.
\<close>

definition mem_get ::
    "string \<Rightarrow> (string \<times> jsval) list \<Rightarrow> (failure + jsval) \<times> (string \<times> jsval) list" where
  "mem_get key s = (Inr (case map_of s key of None \<Rightarrow> JNull | Some e \<Rightarrow> e), s)"

definition mem_upsert ::
    "string \<Rightarrow> jsval \<Rightarrow> (string \<times> jsval) list
      \<Rightarrow> (failure + jsval) \<times> (string \<times> jsval) list" where
  "mem_upsert key e s = (Inr JUndefined, put_field key e s)"

definition mem_remove ::
    "string \<Rightarrow> (string \<times> jsval) list \<Rightarrow> (failure + jsval) \<times> (string \<times> jsval) list" where
  "mem_remove key s =
     (Inr (case map_of s key of None \<Rightarrow> JNull | Some e \<Rightarrow> JUndefined),
      filter (\<lambda>p. fst p \<noteq> key) s)"

definition mem_candidates :: "jsval list option \<Rightarrow> (string \<times> jsval) list \<Rightarrow> jsval list" where
  "mem_candidates ids s =
     (case ids of
        None \<Rightarrow> map snd s
      | Some js \<Rightarrow>
          filter (\<lambda>e. case get_prop e ''id'' of Inl x \<Rightarrow> False | Inr v \<Rightarrow> List.member js v)
            (map snd s))"

definition mem_filter ::
    "(jsval \<Rightarrow> bool) \<Rightarrow> jsval list option \<Rightarrow> (string \<times> jsval) list
      \<Rightarrow> (failure + jsval list) \<times> (string \<times> jsval) list" where
  "mem_filter fn ids s = (Inr (filter fn (mem_candidates ids s)), s)"

definition mem_find ::
    "(jsval \<Rightarrow> bool) \<Rightarrow> jsval list option \<Rightarrow> (string \<times> jsval) list
      \<Rightarrow> (failure + jsval) \<times> (string \<times> jsval) list" where
  "mem_find fn ids s =
     (Inr (case List.find fn (mem_candidates ids s) of None \<Rightarrow> JNull | Some e \<Rightarrow> e), s)"

definition mem_engine :: "(string \<times> jsval) list engine" where
  "mem_engine =
     \<lparr>se_get = mem_get, se_upsert = mem_upsert, se_remove = mem_remove,
      se_filter = mem_filter, se_find = mem_find\<rparr>"

text \<open>The world with nothing stored, nothing indexed and no call made yet.\<close>

definition world0 :: "(string \<times> jsval) list world" where
  "world0 = \<lparr>estate = [], index = (\<lambda>ns. {}), calls = []\<rparr>"

text \<open>A world with one message stored and indexed under the id \<^verbatim>\<open>42\<close>.\<close>

definition world1 :: "(string \<times> jsval) list world" where
  "world1 =
     \<lparr>estate = [(''message.42'', JObj [(''id'', JStr ''42'')])],
      index = (\<lambda>ns. if ns = ''message'' then {JStr ''42''} else {}),
      calls = []\<rparr>"

section \<open>The invariant of a bound instance\<close>

text \<open>
  Section 3 of the specification: the entity of a bound instance is never null. An
  unbound instance has no entity.
\<close>

definition entity_not_null :: "'s cache \<Rightarrow> bool" where
  "entity_not_null c =
     (case boundObject c of None \<Rightarrow> True | Some e \<Rightarrow> e \<noteq> JNull \<and> e \<noteq> JUndefined)"

section \<open>Facts about the constructor and the two recursive methods\<close>

lemma namespace_new [simp]: "namespace (new_MessageCache se bo) = ''message''"
  by (simp add: new_MessageCache_def bindObject_def Let_def)

lemma storageEngine_new [simp]: "storageEngine (new_MessageCache se bo) = se"
  by (simp add: new_MessageCache_def bindObject_def Let_def)

lemma boundObject_new:
  "boundObject (new_MessageCache se bo) = (if truthy bo then Some bo else None)"
  by (simp add: new_MessageCache_def bindObject_def Let_def)

lemma this_boundObject_new:
  "this_boundObject (new_MessageCache se bo) = (if truthy bo then bo else JUndefined)"
  by (simp add: this_boundObject_def boundObject_new)

lemma truthy_get_prop: "truthy v \<Longrightarrow> \<exists>x. get_prop v k = Inr x"
  by (cases v) auto

text \<open>
  On a receiver whose \<^verbatim>\<open>this.boundObject\<close> is truthy, \<^verbatim>\<open>remove\<close> calls itself on
  the same receiver, which is still bound: no call returns.
\<close>

lemma remove_bound_aux:
  "remove this i w = Some y \<Longrightarrow> \<not> truthy (this_boundObject this)"
proof (erule remove.raw_induct
    [rotated, where P = "\<lambda>this i w y. \<not> truthy (this_boundObject this)"], goal_cases)
  case (1 rem this i w y)
  show ?case
  proof
    assume b: "truthy (this_boundObject this)"
    then obtain x where x: "get_prop (this_boundObject this) ''id'' = Inr x"
      using truthy_get_prop by blast
    with b 1(2) have "rem this x w = Some y" by simp
    from 1(1)[OF this] b show False by simp
  qed
qed

lemma remove_bound_None: "truthy (this_boundObject this) \<Longrightarrow> remove this i w = None"
  using remove_bound_aux [of this i w] by (cases "remove this i w") auto

text \<open>
  \<^verbatim>\<open>update\<close> on a bound receiver rebinds it to \<^verbatim>\<open>data\<close> and calls itself on the
  receiver; with truthy \<^verbatim>\<open>data\<close> the receiver is bound again, and so on.
\<close>

lemma update_bound_aux:
  "update this i d w = Some y \<Longrightarrow> \<not> (truthy (this_boundObject this) \<and> truthy d)"
proof (erule update.raw_induct
    [rotated, where P = "\<lambda>this i d w y. \<not> (truthy (this_boundObject this) \<and> truthy d)"],
    goal_cases)
  case (1 upd this i d w y)
  show ?case
  proof
    assume t: "truthy (this_boundObject this) \<and> truthy d"
    let ?this1 = "bindObject this d"
    have b1: "this_boundObject ?this1 = d"
      by (simp add: bindObject_def this_boundObject_def)
    obtain x where x: "get_prop d ''id'' = Inr x"
      using truthy_get_prop t by blast
    from 1(2) t b1 x obtain z where "upd ?this1 x d w = Some z"
      by (auto simp: Let_def split: Option.bind_splits)
    from 1(1)[OF this] b1 t show False by simp
  qed
qed

lemma update_bound_None:
  "truthy (this_boundObject this) \<Longrightarrow> truthy d \<Longrightarrow> update this i d w = None"
  using update_bound_aux [of this i d w] by (cases "update this i d w") auto

text \<open>The bodies of the two methods on an unbound receiver.\<close>

lemma update_unbound:
  "\<not> truthy (this_boundObject this) \<Longrightarrow>
   update this i d w =
     (case get_prop d ''id'' of
        Inl e \<Rightarrow> Some (Inl e, this, w)
      | Inr did \<Rightarrow>
          (case (if \<not> truthy did then set_prop d ''id'' i else Inr d) of
             Inl e \<Rightarrow> Some (Inl e, this, w)
           | Inr data1 \<Rightarrow>
               (let w1 = addToIndex this i w in
                case storageEngine_upsert (storageEngine this) (buildId this i) data1 w1 of
                  (Inl e, w2) \<Rightarrow> Some (Inl e, this, w2)
                | (Inr _, w2) \<Rightarrow>
                    Some (Inr (Fresh (new_MessageCache (storageEngine this) data1)),
                          this, w2))))"
  by (subst update.simps) simp

lemma remove_unbound:
  "\<not> truthy (this_boundObject this) \<Longrightarrow>
   remove this i w =
     (case storageEngine_get (storageEngine this) (buildId this i) w of
        (Inl e, w1) \<Rightarrow> Some (Inl e, w1)
      | (Inr message, w1) \<Rightarrow>
          if truthy message then
            (let w2 = removeFromIndex this i w1 in
             Some (storageEngine_remove (storageEngine this) (buildId this i) w2))
          else Some (Inr JNull, w1))"
  by (subst remove.simps) simp

text \<open>
  With falsy \<^verbatim>\<open>data\<close> the bound receiver is rebound and the call ends in a
  \<^verbatim>\<open>TypeError\<close>: at \<^verbatim>\<open>this.boundObject.id\<close> for \<^verbatim>\<open>null\<close> and \<^verbatim>\<open>undefined\<close>,
  at \<^verbatim>\<open>data.id = id\<close> for a primitive.
\<close>

lemma update_bound_falsy:
  assumes "truthy (this_boundObject this)" and "\<not> truthy d"
  shows "update this i d w = Some (Inl TypeError, bindObject this d, w)"
proof -
  have b1: "this_boundObject (bindObject this d) = d"
    by (simp add: bindObject_def this_boundObject_def)
  have inner: "update (bindObject this d) JUndefined d w
      = Some (Inl TypeError, bindObject this d, w)"
    using assms(2) b1 by (cases d) (simp_all add: update_unbound)
  show ?thesis
    using assms b1 inner
    by (subst update.simps) (cases d, simp_all)
qed

lemma entity_not_null_new: "entity_not_null (new_MessageCache se bo)"
  by (cases bo) (simp_all add: entity_not_null_def boundObject_new)

text \<open>Whenever \<^verbatim>\<open>update\<close> returns a value, the value is a new instance.\<close>

lemma update_value_fresh:
  assumes "update this i d w = Some (Inr r, this', w1)"
  shows "\<exists>c. r = Fresh c \<and> entity_not_null c"
proof (cases "truthy (this_boundObject this)")
  case True
  show ?thesis
  proof (cases "truthy d")
    case t: True
    with True assms show ?thesis by (simp add: update_bound_None)
  next
    case False
    with True assms show ?thesis by (simp add: update_bound_falsy)
  qed
next
  case False
  with assms show ?thesis
    by (auto simp: update_unbound Let_def entity_not_null_new
        split: sum.splits prod.splits if_splits)
qed

text \<open>An update with an object as data that returns has left the receiver as it was.\<close>

lemma update_object_receiver:
  assumes "update this i (JObj fs) w = Some (r, this', w1)"
  shows "this' = this"
proof (cases "truthy (this_boundObject this)")
  case True
  with assms show ?thesis by (simp add: update_bound_None)
next
  case False
  with assms show ?thesis
    by (auto simp: update_unbound Let_def split: sum.splits prod.splits if_splits)
qed

text \<open>The engine in memory keeps the contract between get and upsert.\<close>

lemma map_of_put_field: "map_of (put_field k v ps) = (map_of ps)(k \<mapsto> v)"
  by (induction ps) auto

lemma mem_engine_contract: "get_upsert_contract mem_engine"
  by (simp add: get_upsert_contract_def mem_engine_def mem_upsert_def mem_get_def
      map_of_put_field)

section \<open>The claims\<close>

text \<open>
  C1. The claim: on a bound instance, \<^verbatim>\<open>update(id, data)\<close> rebinds the instance
  to \<^verbatim>\<open>data\<close>, runs the update path with the bound entity's id and returns the
  instance, which equals rebinding and then running the update of an unbound
  instance. The code does not: an instance bound to \<^verbatim>\<open>{id: "1"}\<close> and asked to
  \<^verbatim>\<open>update("7", {id: "1", content: "hi"})\<close> never returns, since the call it makes
  on itself finds the instance bound again; the specified reading returns the
  instance, bound to the new data, after one index addition and one upsert.
\<close>

theorem C1_update_bound_never_returns:
  "update (new_MessageCache mem_engine (JObj [(''id'', JStr ''1'')])) (JStr ''7'')
      (JObj [(''id'', JStr ''1''), (''content'', JStr ''hi'')]) world0 = None
   \<and> (\<exists>this' w'.
        update_bound_spec (new_MessageCache mem_engine (JObj [(''id'', JStr ''1'')])) (JStr ''7'')
          (JObj [(''id'', JStr ''1''), (''content'', JStr ''hi'')]) world0
          = Some (Inr Self, this', w')
        \<and> boundObject this' = Some (JObj [(''id'', JStr ''1''), (''content'', JStr ''hi'')])
        \<and> calls w' =
            [IDX_add ''message'' (JStr ''1''),
             SE_upsert ''message.1'' (JObj [(''id'', JStr ''1''), (''content'', JStr ''hi'')])])"
proof
  show "update (new_MessageCache mem_engine (JObj [(''id'', JStr ''1'')])) (JStr ''7'')
      (JObj [(''id'', JStr ''1''), (''content'', JStr ''hi'')]) world0 = None"
    by (rule update_bound_None) (simp_all add: this_boundObject_new)
next
  show "\<exists>this' w'.
        update_bound_spec (new_MessageCache mem_engine (JObj [(''id'', JStr ''1'')])) (JStr ''7'')
          (JObj [(''id'', JStr ''1''), (''content'', JStr ''hi'')]) world0
          = Some (Inr Self, this', w')
        \<and> boundObject this' = Some (JObj [(''id'', JStr ''1''), (''content'', JStr ''hi'')])
        \<and> calls w' =
            [IDX_add ''message'' (JStr ''1''),
             SE_upsert ''message.1'' (JObj [(''id'', JStr ''1''), (''content'', JStr ''hi'')])]"
    by (simp add: update_bound_spec_def Let_def update_unbound this_boundObject_def
        new_MessageCache_def bindObject_def addToIndex_def storageEngine_upsert_def
        buildId_def mem_engine_def mem_upsert_def world0_def own_prop_def)
qed

text \<open>
  C2. The claim: on a bound instance, \<^verbatim>\<open>get(id)\<close> returns the instance itself,
  without storage access and whatever the id. The code returns at once and makes no
  call, but what it returns is \<^verbatim>\<open>this.boundObject\<close>, the bound entity, not the
  instance: an instance bound to \<^verbatim>\<open>{id: "42"}\<close> and asked \<^verbatim>\<open>get("7")\<close> returns
  the object \<^verbatim>\<open>{id: "42"}\<close> and leaves the world as it was.
\<close>

theorem C2_get_bound_returns_entity:
  "get (new_MessageCache se (JObj [(''id'', JStr ''42'')])) (JStr ''7'') w
     = (Inr (Plain (JObj [(''id'', JStr ''42'')])), w)"
  by (simp add: get_def this_boundObject_new)

text \<open>
  C3. The claim: when the engine's \<^verbatim>\<open>find\<close> yields nothing, \<^verbatim>\<open>find\<close> returns
  \<^verbatim>\<open>null\<close>, not a wrapper instance. The code wraps whatever the engine yields:
  on an empty store it returns a new instance, which the constructor left unbound.
\<close>

theorem C3_find_nothing_returns_instance:
  "find_cache (new_MessageCache mem_engine JUndefined) (\<lambda>e. True) None world0
     = (Inr (Fresh \<lparr>storageEngine = mem_engine, namespace = ''message'', boundObject = None\<rparr>),
        world0\<lparr>calls := [SE_find None]\<rparr>)"
  by (simp add: find_cache_def storageEngine_find_def mem_engine_def mem_find_def
      mem_candidates_def world0_def new_MessageCache_def)

text \<open>
  C4. The claim: on a bound instance, \<^verbatim>\<open>remove(id)\<close> ignores the id, runs the
  remove path with the bound entity's id and returns completion or absence. The
  code passes the bound entity's id to a call on the same, still bound, instance:
  an instance bound to \<^verbatim>\<open>{id: "42"}\<close> and asked \<^verbatim>\<open>remove("7")\<close> never returns,
  on any engine and in any world.
\<close>

theorem C4_remove_bound_never_returns:
  "remove (new_MessageCache se (JObj [(''id'', JStr ''42'')])) (JStr ''7'') w = None"
  by (rule remove_bound_None) (simp add: this_boundObject_new)

text \<open>
  C5. On an engine that keeps the contract between get and upsert, with the upsert
  of this call completing: \<^verbatim>\<open>update(i, d)\<close> on an unbound instance, for an
  object \<^verbatim>\<open>d\<close>, returns a new instance, and \<^verbatim>\<open>get(i)\<close> on an unbound instance
  of the same engine and namespace, in the world the update left, returns a new
  instance bound to the same entity: \<^verbatim>\<open>d\<close> itself when \<^verbatim>\<open>d.id\<close> is truthy, and
  \<^verbatim>\<open>d\<close> with \<^verbatim>\<open>id\<close> set to \<^verbatim>\<open>i\<close> when it is not (the property is missing, or
  holds \<^verbatim>\<open>undefined\<close>, \<^verbatim>\<open>null\<close>, \<^verbatim>\<open>false\<close> or the empty string: the test of
  the code for "no id" is \<^verbatim>\<open>!data.id\<close>).
\<close>

theorem C5_get_after_update:
  fixes c1 c2 :: "'s cache"
  defines "stored i fs \<equiv>
    (if truthy (own_prop fs ''id'') then JObj fs else JObj (put_field ''id'' i fs))"
  assumes contract: "get_upsert_contract (storageEngine c1)"
    and unbound1: "\<not> truthy (this_boundObject c1)"
    and unbound2: "\<not> truthy (this_boundObject c2)"
    and same: "storageEngine c2 = storageEngine c1" "namespace c2 = namespace c1"
    and completes:
      "fst (se_upsert (storageEngine c1) (buildId c1 i) (stored i fs) (estate w)) = Inr r"
  shows "\<exists>u w1 c w2.
           update c1 i (JObj fs) w = Some (Inr (Fresh u), c1, w1)
         \<and> boundObject u = Some (stored i fs)
         \<and> get c2 i w1 = (Inr (Fresh c), w2)
         \<and> boundObject c = Some (stored i fs)"
proof -
  let ?se = "storageEngine c1"
  let ?key = "buildId c1 i"
  have key2: "buildId c2 i = ?key"
    using same by (simp add: buildId_def)
  have obj: "truthy (stored i fs)"
    by (simp add: stored_def)
  obtain s1 where ups: "se_upsert ?se ?key (stored i fs) (estate w) = (Inr r, s1)"
    using completes by (cases "se_upsert ?se ?key (stored i fs) (estate w)") simp
  from contract ups have "fst (se_get ?se ?key s1) = Inr (stored i fs)"
    unfolding get_upsert_contract_def
    by (metis (mono_tags, lifting) old.prod.case old.sum.simps(6))
  then obtain s2 where gets: "se_get ?se ?key s1 = (Inr (stored i fs), s2)"
    by (cases "se_get ?se ?key s1") simp
  let ?w1 = "(addToIndex c1 i w)\<lparr>estate := s1,
      calls := calls (addToIndex c1 i w) @ [SE_upsert ?key (stored i fs)]\<rparr>"
  have upd: "update c1 i (JObj fs) w
      = Some (Inr (Fresh (new_MessageCache ?se (stored i fs))), c1, ?w1)"
    using unbound1 ups
    by (cases "truthy (own_prop fs ''id'')")
      (simp_all add: update_unbound storageEngine_upsert_def stored_def addToIndex_def)
  have est: "estate ?w1 = s1" by simp
  have g: "get c2 i ?w1
      = (Inr (Fresh (new_MessageCache ?se (stored i fs))),
         ?w1\<lparr>estate := s2, calls := calls ?w1 @ [SE_get ?key]\<rparr>)"
    using unbound2 gets obj same key2 est
    by (simp add: get_def storageEngine_get_def)
  have b: "boundObject (new_MessageCache ?se (stored i fs)) = Some (stored i fs)"
    using obj by (simp add: boundObject_new)
  from upd g b show ?thesis by blast
qed

theorem C5_get_after_update_witness:
  "get_upsert_contract mem_engine
   \<and> \<not> truthy (this_boundObject (new_MessageCache mem_engine JUndefined))
   \<and> fst (se_upsert mem_engine ''message.42''
            (JObj [(''content'', JStr ''hi''), (''id'', JStr ''42'')]) (estate world0))
       = Inr JUndefined
   \<and> (\<exists>u w1 c w2.
         update (new_MessageCache mem_engine JUndefined) (JStr ''42'')
           (JObj [(''content'', JStr ''hi'')]) world0
           = Some (Inr (Fresh u), new_MessageCache mem_engine JUndefined, w1)
       \<and> boundObject u = Some (JObj [(''content'', JStr ''hi''), (''id'', JStr ''42'')])
       \<and> get (new_MessageCache mem_engine JUndefined) (JStr ''42'') w1 = (Inr (Fresh c), w2)
       \<and> boundObject c = Some (JObj [(''content'', JStr ''hi''), (''id'', JStr ''42'')]))"
proof -
  let ?c = "new_MessageCache mem_engine JUndefined"
  have k: "get_upsert_contract (storageEngine ?c)"
    using mem_engine_contract by simp
  have a: "\<not> truthy (this_boundObject ?c)"
    by (simp add: this_boundObject_new)
  have d: "fst (se_upsert (storageEngine ?c) (buildId ?c (JStr ''42''))
             (if truthy (own_prop [(''content'', JStr ''hi'')] ''id'')
              then JObj [(''content'', JStr ''hi'')]
              else JObj (put_field ''id'' (JStr ''42'') [(''content'', JStr ''hi'')]))
             (estate world0)) = Inr JUndefined"
    by (simp add: buildId_def mem_engine_def mem_upsert_def world0_def own_prop_def)
  from C5_get_after_update [OF k a a refl refl d] k a d show ?thesis
    by (simp add: buildId_def own_prop_def)
qed

text \<open>
  C6. On an unbound instance, \<^verbatim>\<open>update\<close> with an object as data makes exactly
  two collaborator calls, the index addition and then the upsert, and the upsert is
  issued in the world the completed index addition left; and \<^verbatim>\<open>remove\<close> of an id
  the engine's \<^verbatim>\<open>get\<close> finds makes, after that \<^verbatim>\<open>get\<close>, the index removal and
  then the storage removal, issued in the world the completed index removal left.
\<close>

theorem C6_index_before_storage:
  fixes this :: "'s cache"
  defines "stored i fs \<equiv>
    (if truthy (own_prop fs ''id'') then JObj fs else JObj (put_field ''id'' i fs))"
  assumes unbound: "\<not> truthy (this_boundObject this)"
  shows "(\<exists>r w1. update this i (JObj fs) w = Some (r, this, w1)
            \<and> w1 = snd (storageEngine_upsert (storageEngine this) (buildId this i)
                          (stored i fs) (addToIndex this i w))
            \<and> calls w1 = calls w @ [IDX_add (namespace this) i,
                                     SE_upsert (buildId this i) (stored i fs)])
       \<and> (se_get (storageEngine this) (buildId this i) (estate w) = (Inr m, s) \<and> truthy m
            \<longrightarrow> (\<exists>r w2. remove this i w = Some (r, w2)
                  \<and> w2 = snd (storageEngine_remove (storageEngine this) (buildId this i)
                               (removeFromIndex this i
                                 (snd (storageEngine_get (storageEngine this)
                                         (buildId this i) w))))
                  \<and> calls w2 = calls w @ [SE_get (buildId this i),
                                           IDX_remove (namespace this) i,
                                           SE_remove (buildId this i)]))"
proof (intro conjI impI)
  show "\<exists>r w1. update this i (JObj fs) w = Some (r, this, w1)
            \<and> w1 = snd (storageEngine_upsert (storageEngine this) (buildId this i)
                          (stored i fs) (addToIndex this i w))
            \<and> calls w1 = calls w @ [IDX_add (namespace this) i,
                                     SE_upsert (buildId this i) (stored i fs)]"
    using unbound
    by (cases "truthy (own_prop fs ''id'')")
      (auto simp: update_unbound storageEngine_upsert_def stored_def addToIndex_def
        split: prod.splits sum.splits)
next
  assume "se_get (storageEngine this) (buildId this i) (estate w) = (Inr m, s) \<and> truthy m"
  then show "\<exists>r w2. remove this i w = Some (r, w2)
                  \<and> w2 = snd (storageEngine_remove (storageEngine this) (buildId this i)
                               (removeFromIndex this i
                                 (snd (storageEngine_get (storageEngine this)
                                         (buildId this i) w))))
                  \<and> calls w2 = calls w @ [SE_get (buildId this i),
                                           IDX_remove (namespace this) i,
                                           SE_remove (buildId this i)]"
    using unbound
    by (auto simp: remove_unbound storageEngine_get_def storageEngine_remove_def
        removeFromIndex_def split: prod.splits)
qed

theorem C6_index_before_storage_witness:
  "\<not> truthy (this_boundObject (new_MessageCache mem_engine JUndefined))
   \<and> se_get mem_engine ''message.42'' (estate world1)
       = (Inr (JObj [(''id'', JStr ''42'')]), estate world1)
   \<and> truthy (JObj [(''id'', JStr ''42'')])
   \<and> (\<exists>r w1. update (new_MessageCache mem_engine JUndefined) (JStr ''42'')
                 (JObj [(''content'', JStr ''hi'')]) world1
               = Some (r, new_MessageCache mem_engine JUndefined, w1)
         \<and> calls w1 = [IDX_add ''message'' (JStr ''42''),
                        SE_upsert ''message.42''
                          (JObj [(''content'', JStr ''hi''), (''id'', JStr ''42'')])])
   \<and> (\<exists>r w2. remove (new_MessageCache mem_engine JUndefined) (JStr ''42'') world1
               = Some (r, w2)
         \<and> calls w2 = [SE_get ''message.42'', IDX_remove ''message'' (JStr ''42''),
                        SE_remove ''message.42''])"
proof -
  let ?c = "new_MessageCache mem_engine JUndefined"
  have a: "\<not> truthy (this_boundObject ?c)"
    by (simp add: this_boundObject_new)
  have b: "se_get (storageEngine ?c) (buildId ?c (JStr ''42'')) (estate world1)
       = (Inr (JObj [(''id'', JStr ''42'')]), estate world1)"
    by (simp add: buildId_def mem_engine_def mem_get_def world1_def)
  have c: "calls world1 = []"
    by (simp add: world1_def)
  from C6_index_before_storage [OF a, of "JStr ''42''" "[(''content'', JStr ''hi'')]" world1
      "JObj [(''id'', JStr ''42'')]" "estate world1"] a b c
  show ?thesis
    by (auto simp: buildId_def own_prop_def)
qed

text \<open>
  C7. Every instance an operation hands out satisfies the invariant. The
  constructor binds only to a truthy argument, so never to \<^verbatim>\<open>null\<close> or
  \<^verbatim>\<open>undefined\<close>; the instance \<^verbatim>\<open>get\<close> returns, any value \<^verbatim>\<open>update\<close> returns
  (always a new instance), each element of the array \<^verbatim>\<open>filter\<close> returns and the
  instance \<^verbatim>\<open>find\<close> returns are made by the constructor; and an \<^verbatim>\<open>update\<close> with
  an object as data that returns leaves the invariant of its receiver intact.
\<close>

theorem C7_bound_entity_not_null:
  "(boundObject (new_MessageCache se bo) = Some e \<longrightarrow> e = bo \<and> e \<noteq> JNull \<and> e \<noteq> JUndefined)
   \<and> (get this i w = (Inr (Fresh cg), wg) \<longrightarrow> entity_not_null cg)
   \<and> (update this i d w = Some (Inr r, this', wu) \<longrightarrow> (\<exists>c. r = Fresh c \<and> entity_not_null c))
   \<and> (entity_not_null this \<and> update this i (JObj fs) w = Some (ro, thiso, wo)
        \<longrightarrow> entity_not_null thiso)
   \<and> (filter_cache this fn ids w = (Inr cs, wfl) \<and> cfl \<in> set cs \<longrightarrow> entity_not_null cfl)
   \<and> (find_cache this fn ids w = (Inr (Fresh cfd), wfd) \<longrightarrow> entity_not_null cfd)"
proof (intro conjI impI)
  assume "boundObject (new_MessageCache se bo) = Some e"
  then show "e = bo" "e \<noteq> JNull" "e \<noteq> JUndefined"
    by (auto simp: boundObject_new split: if_splits)
next
  assume "get this i w = (Inr (Fresh cg), wg)"
  then show "entity_not_null cg"
    by (auto simp: get_def entity_not_null_new split: if_splits sum.splits prod.splits)
next
  assume "update this i d w = Some (Inr r, this', wu)"
  then show "\<exists>c. r = Fresh c \<and> entity_not_null c"
    by (rule update_value_fresh)
next
  assume "entity_not_null this \<and> update this i (JObj fs) w = Some (ro, thiso, wo)"
  then show "entity_not_null thiso"
    using update_object_receiver [of this i fs w ro thiso wo] by simp
next
  assume "filter_cache this fn ids w = (Inr cs, wfl) \<and> cfl \<in> set cs"
  then show "entity_not_null cfl"
    by (auto simp: filter_cache_def entity_not_null_new split: sum.splits prod.splits)
next
  assume "find_cache this fn ids w = (Inr (Fresh cfd), wfd)"
  then show "entity_not_null cfd"
    by (auto simp: find_cache_def entity_not_null_new split: sum.splits prod.splits)
qed

theorem C7_bound_entity_not_null_witness:
  "boundObject (new_MessageCache mem_engine (JObj [(''id'', JStr ''42'')]))
     = Some (JObj [(''id'', JStr ''42'')])
   \<and> JObj [(''id'', JStr ''42'')] \<noteq> JNull
   \<and> fst (get (new_MessageCache mem_engine JUndefined) (JStr ''42'') world1)
       = Inr (Fresh (new_MessageCache mem_engine (JObj [(''id'', JStr ''42'')])))
   \<and> (\<exists>wu. update (new_MessageCache mem_engine JUndefined) (JStr ''42'')
         (JObj [(''id'', JStr ''42'')]) world1
       = Some (Inr (Fresh (new_MessageCache mem_engine (JObj [(''id'', JStr ''42'')]))),
               new_MessageCache mem_engine JUndefined, wu))
   \<and> fst (filter_cache (new_MessageCache mem_engine JUndefined) (\<lambda>e. True) None world1)
       = Inr [new_MessageCache mem_engine (JObj [(''id'', JStr ''42'')])]
   \<and> fst (find_cache (new_MessageCache mem_engine JUndefined) (\<lambda>e. True) None world1)
       = Inr (Fresh (new_MessageCache mem_engine (JObj [(''id'', JStr ''42'')])))
   \<and> entity_not_null (new_MessageCache mem_engine (JObj [(''id'', JStr ''42'')]))
   \<and> entity_not_null (new_MessageCache mem_engine JUndefined)"
proof -
  let ?m = "JObj [(''id'', JStr ''42'')]"
  let ?c = "new_MessageCache mem_engine JUndefined"
  let ?b = "new_MessageCache mem_engine ?m"
  let ?wg = "world1\<lparr>calls := [SE_get ''message.42'']\<rparr>"
  let ?wfl = "world1\<lparr>calls := [SE_filter None]\<rparr>"
  let ?wfd = "world1\<lparr>calls := [SE_find None]\<rparr>"
  let ?wu = "snd (storageEngine_upsert mem_engine ''message.42'' ?m
                (addToIndex ?c (JStr ''42'') world1))"
  have n: "boundObject ?b = Some ?m"
    by (simp add: boundObject_new)
  have u: "\<not> truthy (this_boundObject ?c)"
    by (simp add: this_boundObject_new)
  have o: "entity_not_null ?c"
    by (simp add: entity_not_null_def boundObject_new)
  have g: "get ?c (JStr ''42'') world1 = (Inr (Fresh ?b), ?wg)"
    by (simp add: get_def this_boundObject_new storageEngine_get_def buildId_def
        mem_engine_def mem_get_def world1_def)
  have up: "update ?c (JStr ''42'') ?m world1 = Some (Inr (Fresh ?b), ?c, ?wu)"
    by (subst update_unbound [OF u])
      (simp add: Let_def own_prop_def storageEngine_upsert_def buildId_def mem_engine_def
        mem_upsert_def)
  have fl: "filter_cache ?c (\<lambda>e. True) None world1 = (Inr [?b], ?wfl)"
    by (simp add: filter_cache_def storageEngine_filter_def mem_engine_def mem_filter_def
        mem_candidates_def world1_def)
  have fd: "find_cache ?c (\<lambda>e. True) None world1 = (Inr (Fresh ?b), ?wfd)"
    by (simp add: find_cache_def storageEngine_find_def mem_engine_def mem_find_def
        mem_candidates_def world1_def)
  from C7_bound_entity_not_null [where se = mem_engine and bo = ?m and e = ?m
      and this = ?c and i = "JStr ''42''" and w = world1 and cg = ?b and wg = ?wg
      and d = ?m and r = "Fresh ?b" and this' = ?c and wu = ?wu
      and fs = "[(''id'', JStr ''42'')]" and ro = "Inr (Fresh ?b)" and thiso = ?c and wo = ?wu
      and fn = "\<lambda>e. True" and ids = None and cs = "[?b]" and cfl = ?b and wfl = ?wfl
      and cfd = ?b and wfd = ?wfd] n o g up fl fd
  show ?thesis by auto
qed

text \<open>
  C8. \<^verbatim>\<open>buildId\<close> returns the namespace, a dot and the id; with the namespace
  \<^verbatim>\<open>message\<close> of a constructed instance and the id \<^verbatim>\<open>42\<close> it gives
  \<^verbatim>\<open>message.42\<close>; and two different string ids give two different keys. (Being a
  function of the instance's namespace and the id alone, it is deterministic.)
\<close>

theorem C8_buildId:
  "buildId this (JStr i) = namespace this @ ''.'' @ i
   \<and> buildId (new_MessageCache se bo) (JStr ''42'') = ''message.42''
   \<and> (i1 \<noteq> i2 \<longrightarrow> buildId this (JStr i1) \<noteq> buildId this (JStr i2))"
  by (simp add: buildId_def)

theorem C8_buildId_witness:
  "''42'' \<noteq> ''43''
   \<and> buildId (new_MessageCache mem_engine JUndefined) (JStr ''42'') = ''message.42''
   \<and> buildId (new_MessageCache mem_engine JUndefined) (JStr ''42'')
       \<noteq> buildId (new_MessageCache mem_engine JUndefined) (JStr ''43'')"
  using C8_buildId [of "new_MessageCache mem_engine JUndefined" "''42''" mem_engine JUndefined
      "''42''" "''43''"]
  by (simp add: buildId_def)

text \<open>
  C9. On an unbound instance, when the engine's \<^verbatim>\<open>get\<close> at the built key yields
  nothing (a falsy value: \<^verbatim>\<open>null\<close>, \<^verbatim>\<open>undefined\<close>), \<^verbatim>\<open>remove(i)\<close> returns
  \<^verbatim>\<open>null\<close>; the one collaborator call it has made is that \<^verbatim>\<open>get\<close>, so the index
  is as it was and no storage removal was issued.
\<close>

theorem C9_remove_absent:
  assumes "\<not> truthy (this_boundObject this)"
    and "se_get (storageEngine this) (buildId this i) (estate w) = (Inr m, s)"
    and "\<not> truthy m"
  shows "\<exists>w'. remove this i w = Some (Inr JNull, w')
           \<and> index w' = index w
           \<and> estate w' = s
           \<and> calls w' = calls w @ [SE_get (buildId this i)]"
  using assms by (simp add: remove_unbound storageEngine_get_def)

theorem C9_remove_absent_witness:
  "\<not> truthy (this_boundObject (new_MessageCache mem_engine JUndefined))
   \<and> se_get mem_engine ''message.42'' (estate world0) = (Inr JNull, [])
   \<and> \<not> truthy JNull
   \<and> (\<exists>w'. remove (new_MessageCache mem_engine JUndefined) (JStr ''42'') world0
              = Some (Inr JNull, w')
         \<and> index w' = index world0
         \<and> estate w' = []
         \<and> calls w' = calls world0 @ [SE_get ''message.42''])"
proof -
  have a: "\<not> truthy (this_boundObject (new_MessageCache mem_engine JUndefined))"
    by (simp add: this_boundObject_new)
  have b: "se_get (storageEngine (new_MessageCache mem_engine JUndefined))
             (buildId (new_MessageCache mem_engine JUndefined) (JStr ''42'')) (estate world0)
           = (Inr JNull, [])"
    by (simp add: buildId_def mem_engine_def mem_get_def world0_def)
  have c: "\<not> truthy JNull" by simp
  from C9_remove_absent [OF a b c] a b show ?thesis
    by (simp add: buildId_def)
qed

text \<open>
  C10. On an unbound instance, \<^verbatim>\<open>update(i, d)\<close> for an object \<^verbatim>\<open>d\<close> whose own
  \<^verbatim>\<open>id\<close> is truthy and differs from \<^verbatim>\<open>i\<close> adds \<^verbatim>\<open>i\<close> to the index, upserts
  \<^verbatim>\<open>d\<close>, unchanged, at the key built from \<^verbatim>\<open>i\<close>, and (the upsert completing)
  returns a new instance bound to \<^verbatim>\<open>d\<close>, whose \<^verbatim>\<open>id\<close> is still its own and not
  \<^verbatim>\<open>i\<close>.
\<close>

theorem C10_update_keeps_own_id:
  assumes "\<not> truthy (this_boundObject this)"
    and "truthy (own_prop fs ''id'')"
    and "own_prop fs ''id'' \<noteq> i"
    and "se_upsert (storageEngine this) (buildId this i) (JObj fs) (estate w) = (Inr r, s)"
  shows "\<exists>c w'. update this i (JObj fs) w = Some (Inr (Fresh c), this, w')
           \<and> boundObject c = Some (JObj fs)
           \<and> get_prop (JObj fs) ''id'' \<noteq> Inr i
           \<and> i \<in> index w' (namespace this)
           \<and> estate w' = s
           \<and> calls w' = calls w @ [IDX_add (namespace this) i, SE_upsert (buildId this i) (JObj fs)]"
  using assms
  by (simp add: update_unbound storageEngine_upsert_def addToIndex_def boundObject_new)

theorem C10_update_keeps_own_id_witness:
  "\<not> truthy (this_boundObject (new_MessageCache mem_engine JUndefined))
   \<and> truthy (own_prop [(''id'', JStr ''1'')] ''id'')
   \<and> own_prop [(''id'', JStr ''1'')] ''id'' \<noteq> JStr ''7''
   \<and> se_upsert mem_engine ''message.7'' (JObj [(''id'', JStr ''1'')]) (estate world0)
        = (Inr JUndefined, [(''message.7'', JObj [(''id'', JStr ''1'')])])
   \<and> (\<exists>c w'. update (new_MessageCache mem_engine JUndefined) (JStr ''7'')
                 (JObj [(''id'', JStr ''1'')]) world0
               = Some (Inr (Fresh c), new_MessageCache mem_engine JUndefined, w')
           \<and> boundObject c = Some (JObj [(''id'', JStr ''1'')])
           \<and> get_prop (JObj [(''id'', JStr ''1'')]) ''id'' \<noteq> Inr (JStr ''7'')
           \<and> JStr ''7'' \<in> index w' ''message''
           \<and> estate w' = [(''message.7'', JObj [(''id'', JStr ''1'')])]
           \<and> calls w' = [IDX_add ''message'' (JStr ''7''),
                          SE_upsert ''message.7'' (JObj [(''id'', JStr ''1'')])])"
proof -
  have a: "\<not> truthy (this_boundObject (new_MessageCache mem_engine JUndefined))"
    by (simp add: this_boundObject_new)
  have b: "truthy (own_prop [(''id'', JStr ''1'')] ''id'')"
    by (simp add: own_prop_def)
  have c: "own_prop [(''id'', JStr ''1'')] ''id'' \<noteq> JStr ''7''"
    by (simp add: own_prop_def)
  have d: "se_upsert (storageEngine (new_MessageCache mem_engine JUndefined))
             (buildId (new_MessageCache mem_engine JUndefined) (JStr ''7''))
             (JObj [(''id'', JStr ''1'')]) (estate world0)
           = (Inr JUndefined, [(''message.7'', JObj [(''id'', JStr ''1'')])])"
    by (simp add: buildId_def mem_engine_def mem_upsert_def world0_def)
  from C10_update_keeps_own_id [OF a b c d] a b c d show ?thesis
    by (simp add: buildId_def world0_def)
qed

end
